theory Spec2Isabelle
  imports Complex_Main
begin

section \<open>Identifier generator (\<open>_id_generator\<close>, app/views.py)\<close>

text \<open>
  \<^verbatim>\<open>secrets.choice(seq)\<close> returns \<^verbatim>\<open>seq[randbelow(len(seq))]\<close>. The operating
  system's entropy is an input of the model: a draw is a natural number \<open>r\<close>, and
  \<^verbatim>\<open>randbelow(n)\<close> is \<open>r mod n\<close>, so every index below \<open>n\<close> can come out and
  nothing else can. The source never calls it on an empty sequence.
\<close>

definition choice :: "'a list \<Rightarrow> nat \<Rightarrow> 'a" where
  "choice seq r = seq ! (r mod length seq)"

text \<open>The local variable \<^verbatim>\<open>string\<close> of \<^verbatim>\<open>_id_generator\<close>.\<close>

definition alphabet :: string where
  "alphabet = ''abcdefghijkmnopqrstuvwxyzABCDEFGHJKMNOPQRSTUVWXYZ''"

text \<open>
  \<^verbatim>\<open>"".join(secrets.choice(string) for _ in range(y))\<close>: the \<open>i\<close>-th iteration
  takes the \<open>i\<close>-th draw \<open>rnd i\<close>. \<^verbatim>\<open>range(y)\<close> is empty for a negative \<open>y\<close>.
\<close>

definition id_generator :: "int \<Rightarrow> (nat \<Rightarrow> nat) \<Rightarrow> string" where
  "id_generator y rnd = map (\<lambda>i. choice alphabet (rnd i)) [0..<nat y]"

section \<open>Handle codec (\<open>_b64_encrypt_id\<close>, app/views.py)\<close>

text \<open>
  Python's \<^verbatim>\<open>str\<close> of an integer, as the f-string formats
  \<^verbatim>\<open>flask_app.captcha_count\<close>: decimal digits, most significant first, with a
  leading minus sign for a negative number.
\<close>

definition digit_char :: "nat \<Rightarrow> char" where
  "digit_char d = ''0123456789'' ! d"

fun str_nat :: "nat \<Rightarrow> string" where
  "str_nat n = (if n < 10 then [digit_char n] else str_nat (n div 10) @ [digit_char (n mod 10)])"

definition str_int :: "int \<Rightarrow> string" where
  "str_int i = (if i < 0 then CHR ''-'' # str_nat (nat (- i)) else str_nat (nat i))"

text \<open>
  A \<^verbatim>\<open>datetime\<close> is modelled by its whole seconds since an epoch: the code reads
  the second of the minute (\<^verbatim>\<open>strftime("%S")\<close>, two digits, zero padded) and adds
  five minutes to it, nothing else.
\<close>

type_synonym datetime = nat

definition strftime_S :: "datetime \<Rightarrow> string" where
  "strftime_S now = (let s = now mod 60 in [digit_char (s div 10), digit_char (s mod 10)])"

text \<open>The slice \<^verbatim>\<open>s[-5:]\<close>: the last five characters, all of \<open>s\<close> when it is shorter.\<close>

definition last5 :: "string \<Rightarrow> string" where
  "last5 s = drop (length s - 5) s"

text \<open>
  \<^verbatim>\<open>bytes(s, "utf-8")\<close>. A \<open>char\<close> of HOL is a byte, and the text encoded here is
  ASCII, where UTF-8 is the identity on code points.
\<close>

definition utf8_bytes :: "string \<Rightarrow> nat list" where
  "utf8_bytes s = map of_char s"

text \<open>
  \<^verbatim>\<open>base64.b64encode(...).decode()\<close> of the standard library (RFC 4648, the standard
  alphabet with \<open>=\<close> padding): three bytes give four characters of six bits each.
\<close>

definition b64_table :: string where
  "b64_table = ''ABCDEFGHIJKLMNOPQRSTUVWXYZabcdefghijklmnopqrstuvwxyz0123456789+/''"

definition b64_char :: "nat \<Rightarrow> char" where
  "b64_char n = b64_table ! n"

fun b64encode :: "nat list \<Rightarrow> string" where
  "b64encode [] = []"
| "b64encode [a] = [b64_char (a div 4), b64_char (a mod 4 * 16), CHR ''='', CHR ''='']"
| "b64encode [a, b] =
     [b64_char (a div 4), b64_char (a mod 4 * 16 + b div 16), b64_char (b mod 16 * 4), CHR ''='']"
| "b64encode (a # b # c # rest) =
     [b64_char (a div 4), b64_char (a mod 4 * 16 + b div 16),
      b64_char (b mod 16 * 4 + c div 64), b64_char (c mod 64)] @ b64encode rest"

text \<open>
  \<^verbatim>\<open>_b64_encrypt_id()\<close> reads the clock, the issue counter
  \<^verbatim>\<open>flask_app.captcha_count\<close> and ten draws of the generator; all three are
  arguments here.
\<close>

definition b64_encrypt_id :: "int \<Rightarrow> (nat \<Rightarrow> nat) \<Rightarrow> datetime \<Rightarrow> string" where
  "b64_encrypt_id captcha_count rnd now =
     (let time_now = last5 (strftime_S now)
      in b64encode (utf8_bytes
           (str_int captcha_count @ ''.'' @ id_generator 10 rnd @ ''.'' @ time_now)))"

text \<open>
  The characters a URL path segment may hold without escaping (RFC 3986, \<open>pchar\<close>
  without the percent-encoded form): letters, digits, \<open>-._~\<close>, the sub-delimiters,
  \<open>:\<close> and \<open>@\<close>. The slash, which ends a segment, is not one of them.
\<close>

definition url_path_safe :: "char \<Rightarrow> bool" where
  "url_path_safe c \<longleftrightarrow>
     c \<in> set (''ABCDEFGHIJKLMNOPQRSTUVWXYZabcdefghijklmnopqrstuvwxyz0123456789''
              @ ''-._~'' @ ''!$&()*+,;='' @ '':@'') \<or> c = char_of (39 :: nat)"

section \<open>Salt-and-pepper noise (\<open>salt_and_pepper\<close>, utils/noise.py)\<close>

text \<open>
  A PIL image in mode \<^verbatim>\<open>RGB\<close>: its mode, its size and its raster, row by row, the
  pixel \<open>(x, y)\<close> at index \<open>y * width + x\<close>.
\<close>

type_synonym pixel = "nat \<times> nat \<times> nat"

record pil_image =
  mode :: string
  width :: nat
  height :: nat
  raster :: "pixel list"

text \<open>\<^verbatim>\<open>Image.new(mode, size)\<close>: every pixel black.\<close>

definition Image_new :: "string \<Rightarrow> nat \<times> nat \<Rightarrow> pil_image" where
  "Image_new m sz =
     \<lparr>mode = m, width = fst sz, height = snd sz, raster = replicate (fst sz * snd sz) (0, 0, 0)\<rparr>"

text \<open>
  \<^verbatim>\<open>image.getpixel((x, y))\<close> and \<^verbatim>\<open>draw.point((x, y), fill=...)\<close>. The loops of
  \<^verbatim>\<open>salt_and_pepper\<close> stay inside the image; outside it PIL raises on a read and
  ignores a write, and the model reads black there.
\<close>

definition getpixel :: "pil_image \<Rightarrow> nat \<times> nat \<Rightarrow> pixel" where
  "getpixel im xy =
     (if fst xy < width im \<and> snd xy < height im \<and> snd xy * width im + fst xy < length (raster im)
      then raster im ! (snd xy * width im + fst xy) else (0, 0, 0))"

definition point :: "pil_image \<Rightarrow> nat \<times> nat \<Rightarrow> pixel \<Rightarrow> pil_image" where
  "point im xy fill =
     (if fst xy < width im \<and> snd xy < height im
      then im\<lparr>raster := (raster im)[snd xy * width im + fst xy := fill]\<rparr> else im)"

text \<open>
  The tuple \<^verbatim>\<open>(0, 0.1, 0.2, 0.3, 0.4, 0.5, 0.6, 0.7, 0.8, 0.9, 1)\<close>. A float is the
  rational number it stands for, so each literal is the double nearest to the decimal
  written in the source, and \<open><\<close> compares exactly, as Python does.
\<close>

definition noise_levels :: "rat list" where
  "noise_levels =
     [0,
      3602879701896397 / 36028797018963968,
      3602879701896397 / 18014398509481984,
      5404319552844595 / 18014398509481984,
      3602879701896397 / 9007199254740992,
      1 / 2,
      5404319552844595 / 9007199254740992,
      3152519739159347 / 4503599627370496,
      3602879701896397 / 4503599627370496,
      8106479329266893 / 9007199254740992,
      1]"

text \<open>The body of the two loops at the pixel \<open>(x, y)\<close>, with the draw \<open>r\<close> of this iteration
  (\<open>img\<close> is the argument \<^verbatim>\<open>image\<close>).\<close>

definition salt_and_pepper_at ::
  "pil_image \<Rightarrow> rat \<Rightarrow> nat \<Rightarrow> nat \<times> nat \<Rightarrow> pil_image \<Rightarrow> pil_image" where
  "salt_and_pepper_at img probability r xy output_image =
     (let random_number = choice noise_levels r
      in if random_number < probability then point output_image xy (255, 255, 255)
         else point output_image xy (getpixel img xy))"

text \<open>
  \<^verbatim>\<open>for x in range(image.width): for y in range(image.height)\<close>: the iteration at
  \<open>(x, y)\<close> is number \<open>x * height + y\<close> and takes that draw of \<open>rnd\<close>.
\<close>

definition salt_and_pepper :: "pil_image \<Rightarrow> rat \<Rightarrow> (nat \<Rightarrow> nat) \<Rightarrow> pil_image" where
  "salt_and_pepper img probability rnd =
     fold (\<lambda>x. fold (\<lambda>y. salt_and_pepper_at img probability (rnd (x * height img + y)) (x, y))
                   [0..<height img])
          [0..<width img]
          (Image_new (mode img) (width img, height img))"

section \<open>Records and the application state (app/views.py)\<close>

text \<open>
  The two dictionaries of the application object and its counter. A value of
  \<^verbatim>\<open>flask_app.captchas_solution\<close> is a dictionary with the keys \<^verbatim>\<open>solution\<close>,
  \<^verbatim>\<open>max_solution_check\<close> and \<^verbatim>\<open>solution_checked\<close>; a value of
  \<^verbatim>\<open>flask_app.captcha_cdn\<close> has the keys \<^verbatim>\<open>solution\<close>, \<^verbatim>\<open>image\<close>, \<^verbatim>\<open>time\<close>,
  \<^verbatim>\<open>cdn_accessed_number\<close>, \<^verbatim>\<open>max_cdn_access\<close> and \<^verbatim>\<open>solution_id\<close> (the first
  three carry the prefix \<open>cdn_\<close> here, to keep the field names apart).
\<close>

record solution_record =
  solution :: string
  max_solution_check :: int
  solution_checked :: int

record cdn_record =
  cdn_solution :: string
  cdn_image :: "pil_image option"
  cdn_time :: datetime
  cdn_accessed_number :: int
  max_cdn_access :: int
  solution_id :: string

text \<open>
  Modelled from the spec: the two stores are created outside the files at hand (the
  application package's initialisation); the spec describes each as a keyed store with
  insert, get and delete, and the handlers use them as dictionaries. They are maps here.
  The passive expiry of an entry after its time to live is the store's own and is not
  part of the handlers: the model has none, so it describes the requests made while the
  entries are alive.
\<close>

record app =
  captcha_cdn :: "string \<rightharpoonup> cdn_record"
  captchas_solution :: "string \<rightharpoonup> solution_record"
  captcha_count :: int

text \<open>
  What a handler returns: a JSON error body with its code and text, the PNG of an image
  (\<^verbatim>\<open>send_file\<close> of \<^verbatim>\<open>pil_image.convert("RGBA")\<close> saved as PNG, a function of the
  image alone), the two identifiers of a new captcha (the two URLs of the body are the host
  joined with a fixed route and the same identifiers), or the two booleans of a check.
\<close>

datatype response =
  Json_error int string
  | Png pil_image
  | Captcha string string
  | Check_result bool bool

definition cdn_exhausted :: response where
  "cdn_exhausted = Json_error 418 ''captcha CDN accessed too many times, now expired & deleted''"

definition cdn_not_found :: response where
  "cdn_not_found = Json_error 400 ''cdn key not found''"

definition bad_cdn_access :: response where
  "bad_cdn_access = Json_error 400 ''maxCdnAccess is over 20. default is 5 max is 20, min is 1''"

definition bad_solution_check :: response where
  "bad_solution_check =
     Json_error 400 ''maxSolutionCheck is over 20. default is 5 max is 20, min is 1''"

definition solution_not_found :: response where
  "solution_not_found = Json_error 400 ''solution_id not found''"

definition solution_exhausted :: response where
  "solution_exhausted =
     Json_error 418 ''this route has been accessed too many times. records now expired & deleted''"

definition attempt_not_found :: response where
  "attempt_not_found = Json_error 400 ''attempt not found in HTTP json''"

section \<open>The handlers (app/views.py)\<close>

text \<open>
  \<^verbatim>\<open>get_img(key)\<close>. Every subscript \<^verbatim>\<open>flask_app.captcha_cdn[key]\<close> raises
  \<^verbatim>\<open>KeyError\<close> on a missing key, and so does
  \<^verbatim>\<open>del flask_app.captchas_solution[...]\<close>, which runs before the entry of
  \<^verbatim>\<open>captcha_cdn\<close> is deleted; the handler catches the error and answers 400.
  \<open>cap_gen\<close> is the renderer as this call would run it (its random choices are its own).
  A PIL image is always true in a condition, so \<^verbatim>\<open>not ...["image"]\<close> holds exactly for
  \<^verbatim>\<open>None\<close>.
\<close>

definition get_img :: "(string \<Rightarrow> pil_image) \<Rightarrow> string \<Rightarrow> app \<Rightarrow> app \<times> response" where
  "get_img cap_gen key st =
     (case captcha_cdn st key of
        None \<Rightarrow> (st, cdn_not_found)
      | Some entry \<Rightarrow>
          if cdn_accessed_number entry \<ge> max_cdn_access entry then
            (case captchas_solution st (solution_id entry) of
               None \<Rightarrow> (st, cdn_not_found)
             | Some _ \<Rightarrow>
                 (st\<lparr>captchas_solution := (captchas_solution st)(solution_id entry := None),
                     captcha_cdn := (captcha_cdn st)(key := None)\<rparr>,
                  cdn_exhausted))
          else
            (let counted = entry\<lparr>cdn_accessed_number := cdn_accessed_number entry + 1\<rparr>
             in case cdn_image counted of
                  None \<Rightarrow>
                    (let pil_image = cap_gen (cdn_solution counted)
                     in (st\<lparr>captcha_cdn :=
                              (captcha_cdn st)(key \<mapsto> counted\<lparr>cdn_image := Some pil_image\<rparr>)\<rparr>,
                         Png pil_image))
                | Some pil_image \<Rightarrow>
                    (st\<lparr>captcha_cdn := (captcha_cdn st)(key \<mapsto> counted)\<rparr>, Png pil_image)))"

text \<open>\<^verbatim>\<open>data.get(key, default)\<close>, on the value of the key in the body, if it has one.\<close>

definition dict_get :: "'a option \<Rightarrow> 'a \<Rightarrow> 'a" where
  "dict_get v d = (case v of None \<Rightarrow> d | Some x \<Rightarrow> x)"

text \<open>
  \<^verbatim>\<open>api_captcha()\<close>. \<open>data\<close> is the JSON body as the spec types it: each of
  \<^verbatim>\<open>maxCdnAccess\<close> and \<^verbatim>\<open>maxSolutionCheck\<close> an integer or absent. \<open>rnd\<close> are the
  draws of the generator in the order the request makes them, \<open>utcnow\<close> the readings of
  the clock in the order the request takes them.
\<close>

definition api_captcha ::
  "int option \<times> int option \<Rightarrow> (nat \<Rightarrow> nat) \<Rightarrow> (nat \<Rightarrow> datetime) \<Rightarrow> app \<Rightarrow> app \<times> response" where
  "api_captcha data rnd utcnow st =
     (let cdn_access = dict_get (fst data) 5;
          solution_check = dict_get (snd data) 5
      in if cdn_access \<ge> 20 \<or> cdn_access \<le> 0 then (st, bad_cdn_access)
         else if solution_check \<ge> 20 \<or> solution_check \<le> 0 then (st, bad_solution_check)
         else
           (let sid = b64_encrypt_id (captcha_count st) rnd (utcnow 0);
                y = choice [4, 5] (rnd 10);
                sol = id_generator y (\<lambda>i. rnd (11 + i));
                st1 = st\<lparr>captchas_solution := (captchas_solution st)(sid \<mapsto>
                        \<lparr>solution = sol, max_solution_check = solution_check,
                         solution_checked = 0\<rparr>)\<rparr>;
                delta = 5 * 60;
                now = utcnow 1;
                cdn_id = b64_encrypt_id (captcha_count st1) (\<lambda>i. rnd (11 + nat y + i)) (utcnow 2);
                st2 = st1\<lparr>captcha_cdn := (captcha_cdn st1)(cdn_id \<mapsto>
                        \<lparr>cdn_solution = sol, cdn_image = None, cdn_time = now + delta,
                         cdn_accessed_number = 0, max_cdn_access = cdn_access,
                         solution_id = sid\<rparr>)\<rparr>;
                st3 = st2\<lparr>captcha_count := captcha_count st2 + 1\<rparr>
            in (st3, Captcha sid cdn_id)))"

text \<open>
  \<^verbatim>\<open>check_solution(solution_id)\<close>. \<open>attempt\<close> is \<^verbatim>\<open>rq_data.get("attempt")\<close>: a
  string, or \<open>None\<close> when the body has no such key. \<open>lower\<close> is \<^verbatim>\<open>str.lower\<close>, a
  parameter: its Unicode tables belong to the language, and the handler only applies it
  to both sides.
\<close>

definition check_solution ::
  "(string \<Rightarrow> string) \<Rightarrow> string \<Rightarrow> string option \<Rightarrow> app \<Rightarrow> app \<times> response" where
  "check_solution lower sid attempt st =
     (case captchas_solution st sid of
        None \<Rightarrow> (st, solution_not_found)
      | Some entry \<Rightarrow>
          if solution_checked entry \<ge> max_solution_check entry then
            (st\<lparr>captchas_solution := (captchas_solution st)(sid := None)\<rparr>, solution_exhausted)
          else
            (let captcha_data = entry\<lparr>solution_checked := solution_checked entry + 1\<rparr>;
                 st1 = st\<lparr>captchas_solution := (captchas_solution st)(sid \<mapsto> captcha_data)\<rparr>
             in case attempt of
                  None \<Rightarrow> (st1, attempt_not_found)
                | Some a \<Rightarrow>
                    if a = [] then (st1, attempt_not_found)
                    else (st1, Check_result (a = solution captcha_data)
                                            (lower a = lower (solution captcha_data)))))"

text \<open>\<^verbatim>\<open>str.lower\<close> on ASCII text: the letters A to Z to a to z, everything else kept.\<close>

definition ascii_lower :: "string \<Rightarrow> string" where
  "ascii_lower s =
     map (\<lambda>c. if (65 :: nat) \<le> of_char c \<and> of_char c \<le> (90 :: nat)
              then char_of (of_char c + 32 :: nat) else c) s"

text \<open>A client that calls one handler several times in a row on the same identifier.\<close>

fun get_img_seq :: "(string \<Rightarrow> pil_image) list \<Rightarrow> string \<Rightarrow> app \<Rightarrow> app \<times> response list" where
  "get_img_seq [] key st = (st, [])"
| "get_img_seq (g # gs) key st =
     (let (st1, r) = get_img g key st; (st2, rs) = get_img_seq gs key st1 in (st2, r # rs))"

fun check_solution_seq ::
  "(string \<Rightarrow> string) \<Rightarrow> string \<Rightarrow> string option list \<Rightarrow> app \<Rightarrow> app \<times> response list" where
  "check_solution_seq lower sid [] st = (st, [])"
| "check_solution_seq lower sid (a # as) st =
     (let (st1, r) = check_solution lower sid a st;
          (st2, rs) = check_solution_seq lower sid as st1
      in (st2, r # rs))"

section \<open>Properties of the identifier generator\<close>

lemma length_alphabet: "length alphabet = 49"
  by (simp add: alphabet_def)

lemma choice_alphabet_in: "choice alphabet r \<in> set alphabet"
  unfolding choice_def by (rule nth_mem) (simp add: length_alphabet)


lemma set_id_generator: "set (id_generator y rnd) \<subseteq> set alphabet"
  by (auto simp: id_generator_def choice_alphabet_in)




section \<open>Properties of the handle codec\<close>

text \<open>
  A byte below 128 whose low six bits are not 62 or 63, and a character of the base64
  alphabet other than \<open>+\<close> and \<open>/\<close>.
\<close>

definition plain_byte :: "nat \<Rightarrow> bool" where
  "plain_byte b \<longleftrightarrow> b < 128 \<and> b mod 64 < 62"

definition b64_plain :: "char \<Rightarrow> bool" where
  "b64_plain c \<longleftrightarrow> c \<in> set (take 62 b64_table) \<or> c = CHR ''=''"

declare str_nat.simps [simp del]

lemma b64_char_plain:
  assumes "n < 62"
  shows "b64_plain (b64_char n)"
proof -
  have len: "n < length (take 62 b64_table)" using assms by (simp add: b64_table_def)
  have "take 62 b64_table ! n = b64_table ! n" using assms by simp
  with nth_mem [OF len] show ?thesis by (simp add: b64_plain_def b64_char_def)
qed

lemma b64_pad_plain: "b64_plain (CHR ''='')"
  by (simp add: b64_plain_def)

text \<open>
  Only the last character of a group of four can be \<open>+\<close> or \<open>/\<close> when the bytes are
  below 128, and it is the low six bits of the third byte.
\<close>

lemma b64encode_plain:
  "\<forall>b \<in> set bs. plain_byte b \<Longrightarrow> \<forall>c \<in> set (b64encode bs). b64_plain c"
proof (induction bs rule: b64encode.induct)
  case 1
  then show ?case by simp
next
  case (2 a)
  then have a: "a < 128" by (simp add: plain_byte_def)
  have "b64_plain (b64_char (a div 4))" using a by (intro b64_char_plain) arith
  moreover have "b64_plain (b64_char (a mod 4 * 16))" by (intro b64_char_plain) arith
  ultimately show ?case by (simp add: b64_pad_plain)
next
  case (3 a b)
  then have a: "a < 128" and b: "b < 128" by (simp_all add: plain_byte_def)
  have "b64_plain (b64_char (a div 4))" using a by (intro b64_char_plain) arith
  moreover have "b64_plain (b64_char (a mod 4 * 16 + b div 16))"
    using b by (intro b64_char_plain) arith
  moreover have "b64_plain (b64_char (b mod 16 * 4))" by (intro b64_char_plain) arith
  ultimately show ?case by (simp add: b64_pad_plain)
next
  case (4 a b c rest)
  then have a: "a < 128" and b: "b < 128" and c: "c < 128" "c mod 64 < 62"
    by (simp_all add: plain_byte_def)
  have "b64_plain (b64_char (a div 4))" using a by (intro b64_char_plain) arith
  moreover have "b64_plain (b64_char (a mod 4 * 16 + b div 16))"
    using b by (intro b64_char_plain) arith
  moreover have "b64_plain (b64_char (b mod 16 * 4 + c div 64))"
    using c by (intro b64_char_plain) arith
  moreover have "b64_plain (b64_char (c mod 64))" using c by (intro b64_char_plain)
  moreover have "\<forall>c \<in> set (b64encode rest). b64_plain c" using 4 by simp
  ultimately show ?case by simp
qed

lemma b64_plain_safe:
  "b64_plain c \<Longrightarrow> url_path_safe c \<and> c \<noteq> CHR ''+'' \<and> c \<noteq> CHR ''/''"
  unfolding b64_plain_def url_path_safe_def b64_table_def by auto

lemma plain_digit:
  assumes "d < 10"
  shows "plain_byte (of_char (digit_char d))"
proof -
  have "d \<in> set [0..<10]" using assms by simp
  moreover have "\<forall>d \<in> set [0..<10]. plain_byte (of_char (digit_char d))"
    by (simp add: upt_rec plain_byte_def digit_char_def)
  ultimately show ?thesis by blast
qed

lemma plain_str_nat: "\<forall>c \<in> set (str_nat n). plain_byte (of_char c)"
proof (induction n rule: str_nat.induct)
  case (1 n)
  show ?case
  proof (cases "n < 10")
    case True
    then show ?thesis by (subst str_nat.simps) (simp add: plain_digit)
  next
    case False
    have "plain_byte (of_char (digit_char (n mod 10)))" by (rule plain_digit) simp
    with 1 False show ?thesis by (subst str_nat.simps) auto
  qed
qed

lemma plain_str_int: "\<forall>c \<in> set (str_int i). plain_byte (of_char c)"
  using plain_str_nat by (simp add: str_int_def plain_byte_def)

lemma plain_alphabet: "\<forall>c \<in> set alphabet. plain_byte (of_char c)"
  by (simp add: alphabet_def plain_byte_def)

lemma plain_id_generator: "\<forall>c \<in> set (id_generator y rnd). plain_byte (of_char c)"
  using set_id_generator plain_alphabet by blast

lemma plain_strftime_S: "\<forall>c \<in> set (last5 (strftime_S now)). plain_byte (of_char c)"
proof -
  have "now mod 60 div 10 < 10" "now mod 60 mod 10 < 10" by arith+
  then show ?thesis by (simp add: last5_def strftime_S_def Let_def plain_digit)
qed

text \<open>
  Claim C7: for every value of the issue counter (negative ones too), every sequence of
  draws and every reading of the clock, each character of the handle that
  \<open>b64_encrypt_id\<close> returns may stand in a URL path segment without escaping. The
  encoded text is made of digits, dots, letters of the alphabet and at most a minus
  sign, so the two characters \<open>+\<close> and \<open>/\<close> of base64 never come out (the theorem
  says so too); the padding \<open>=\<close> does, and a path segment may hold it.
\<close>

theorem b64_encrypt_id_url_path_safe:
  "\<forall>c \<in> set (b64_encrypt_id count rnd now).
     url_path_safe c \<and> c \<noteq> CHR ''+'' \<and> c \<noteq> CHR ''/''"
proof -
  have "\<forall>b \<in> set (utf8_bytes (str_int count @ ''.'' @ id_generator 10 rnd @ ''.''
           @ last5 (strftime_S now))). plain_byte b"
    using plain_str_int [of count] plain_id_generator [of 10 rnd]
      plain_strftime_S [of now]
    by (auto simp: utf8_bytes_def plain_byte_def)
  from b64encode_plain [OF this] show ?thesis
    by (auto simp: b64_encrypt_id_def Let_def dest: b64_plain_safe)
qed

theorem b64_encrypt_id_url_path_safe_witness:
  "b64_encrypt_id 12 (\<lambda>i. i * 7) 125 = ''MTIuYWhwd0RNVGFocC4wNQ==''
   \<and> list_all (\<lambda>c. url_path_safe c \<and> c \<noteq> CHR ''+'' \<and> c \<noteq> CHR ''/'')
         (b64_encrypt_id 12 (\<lambda>i. i * 7) 125)"
proof -
  have v: "b64_encrypt_id 12 (\<lambda>i. i * 7) 125 = ''MTIuYWhwd0RNVGFocC4wNQ==''" by code_simp
  from b64_encrypt_id_url_path_safe [of 12 "\<lambda>i. i * 7" 125]
  have "list_all (\<lambda>c. url_path_safe c \<and> c \<noteq> CHR ''+'' \<and> c \<noteq> CHR ''/'')
      (b64_encrypt_id 12 (\<lambda>i. i * 7) 125)"
    by (simp only: list_all_iff)
  with v show ?thesis by blast
qed

section \<open>Properties of the noise\<close>

text \<open>
  What one iteration writes at its pixel, and the shape the output image keeps through
  the loops: the mode and the size of the input and a raster of that size.
\<close>

definition noise_value :: "pil_image \<Rightarrow> rat \<Rightarrow> nat \<Rightarrow> nat \<times> nat \<Rightarrow> pixel" where
  "noise_value img probability r xy =
     (if choice noise_levels r < probability then (255, 255, 255) else getpixel img xy)"

definition canvas :: "pil_image \<Rightarrow> pil_image \<Rightarrow> bool" where
  "canvas img out \<longleftrightarrow>
     mode out = mode img \<and> width out = width img \<and> height out = height img
     \<and> length (raster out) = width img * height img"

lemma index_less:
  assumes "x < (w :: nat)" and "y < h"
  shows "y * w + x < w * h"
proof -
  have "y * w + x < y * w + w" using assms by simp
  also have "\<dots> = (y + 1) * w" by simp
  also have "\<dots> \<le> h * w" using assms by (intro mult_le_mono1) simp
  finally show ?thesis by (simp add: mult.commute)
qed

lemma index_inj:
  assumes x: "x < (w :: nat)" and a: "a < w" and eq: "y * w + x = b * w + a"
  shows "x = a \<and> y = b"
proof -
  have "(y * w + x) mod w = x" using x by simp
  moreover have "(b * w + a) mod w = a" using a by simp
  ultimately have xa: "x = a" using eq by metis
  have "(y * w + x) div w = y" using x by simp
  moreover have "(b * w + a) div w = b" using a by simp
  ultimately have "y = b" using eq by metis
  with xa show ?thesis by simp
qed

lemma salt_and_pepper_at_update:
  assumes "canvas img out" and "fst xy < width img" and "snd xy < height img"
  shows "salt_and_pepper_at img probability r xy out =
    out\<lparr>raster := (raster out)[snd xy * width img + fst xy := noise_value img probability r xy]\<rparr>"
  using assms
  by (simp add: salt_and_pepper_at_def noise_value_def point_def canvas_def Let_def)

lemma canvas_update: "canvas img out \<Longrightarrow> canvas img (out\<lparr>raster := (raster out)[i := v]\<rparr>)"
  by (simp add: canvas_def)

lemma fold_pixels:
  assumes "canvas img out"
    and "\<forall>xy \<in> set ps. fst xy < width img \<and> snd xy < height img"
  shows "canvas img (fold (\<lambda>xy. salt_and_pepper_at img probability (rnd (fst xy * height img + snd xy)) xy) ps out)
    \<and> (\<forall>x y. x < width img \<and> y < height img \<longrightarrow>
          raster (fold (\<lambda>xy. salt_and_pepper_at img probability (rnd (fst xy * height img + snd xy)) xy) ps out)
            ! (y * width img + x) =
          (if (x, y) \<in> set ps then noise_value img probability (rnd (x * height img + y)) (x, y)
           else raster out ! (y * width img + x)))"
  using assms
proof (induction ps arbitrary: out)
  case Nil
  then show ?case by simp
next
  case (Cons p ps)
  let ?v = "noise_value img probability (rnd (fst p * height img + snd p)) p"
  let ?out1 = "out\<lparr>raster := (raster out)[snd p * width img + fst p := ?v]\<rparr>"
  have p: "fst p < width img" "snd p < height img" using Cons.prems(2) by simp_all
  have step: "salt_and_pepper_at img probability (rnd (fst p * height img + snd p)) p out = ?out1"
    using Cons.prems(1) p by (rule salt_and_pepper_at_update)
  have c1: "canvas img ?out1" using Cons.prems(1) by (rule canvas_update)
  have rest: "\<forall>xy \<in> set ps. fst xy < width img \<and> snd xy < height img"
    using Cons.prems(2) by simp
  note ih = Cons.IH [OF c1 rest]
  have len: "length (raster out) = width img * height img"
    using Cons.prems(1) by (simp add: canvas_def)
  have at: "raster ?out1 ! (y * width img + x) =
      (if (x, y) = p then ?v else raster out ! (y * width img + x))"
    if "x < width img" "y < height img" for x y
  proof (cases "(x, y) = p")
    case True
    then have "snd p * width img + fst p = y * width img + x" by auto
    moreover have "y * width img + x < length (raster out)"
      using that len by (simp add: index_less)
    ultimately show ?thesis using True by simp
  next
    case False
    then have "snd p * width img + fst p \<noteq> y * width img + x"
      using index_inj [of "fst p" "width img" x "snd p" y] p that by auto
    with False show ?thesis by simp
  qed
  show ?case
    unfolding fold_Cons comp_def step
    using ih at by (auto split: if_splits)
qed

lemma fold_nested:
  "fold (\<lambda>x. fold (\<lambda>y. f x y) ys) xs = fold (\<lambda>xy. f (fst xy) (snd xy)) (List.product xs ys)"
proof (induction xs)
  case Nil
  then show ?case by simp
next
  case (Cons x xs)
  have "fold (\<lambda>xy. f (fst xy) (snd xy)) (map (Pair x) ys) = fold (f x) ys"
    by (simp add: fold_map comp_def)
  with Cons show ?case by (simp add: comp_def)
qed

lemma canvas_new: "canvas img (Image_new (mode img) (width img, height img))"
  by (simp add: canvas_def Image_new_def)

text \<open>
  The output has the mode and the size of the input, and its pixel at \<open>(x, y)\<close> is white
  when the pick of the iteration at \<open>(x, y)\<close> is below \<open>probability\<close> and the pixel
  of the input otherwise.
\<close>

lemma salt_and_pepper_pixels:
  "mode (salt_and_pepper img probability rnd) = mode img
   \<and> width (salt_and_pepper img probability rnd) = width img
   \<and> height (salt_and_pepper img probability rnd) = height img
   \<and> (\<forall>x y. x < width img \<and> y < height img \<longrightarrow>
         getpixel (salt_and_pepper img probability rnd) (x, y) =
           (if choice noise_levels (rnd (x * height img + y)) < probability
            then (255, 255, 255) else getpixel img (x, y)))"
proof -
  let ?ps = "List.product [0..<width img] [0..<height img]"
  let ?out = "fold (\<lambda>xy. salt_and_pepper_at img probability (rnd (fst xy * height img + snd xy)) xy)
      ?ps (Image_new (mode img) (width img, height img))"
  have eq: "salt_and_pepper img probability rnd = ?out"
    unfolding salt_and_pepper_def
    by (subst fold_nested) simp
  have rng: "\<forall>xy \<in> set ?ps. fst xy < width img \<and> snd xy < height img" by auto
  note inv = fold_pixels [OF canvas_new rng, of probability rnd]
  then have c: "canvas img ?out" by blast
  have px: "getpixel ?out (x, y) =
      (if choice noise_levels (rnd (x * height img + y)) < probability
       then (255, 255, 255) else getpixel img (x, y))"
    if "x < width img" "y < height img" for x y
  proof -
    have "(x, y) \<in> set ?ps" using that by simp
    with inv that have "raster ?out ! (y * width img + x) =
        noise_value img probability (rnd (x * height img + y)) (x, y)"
      by simp
    moreover have "y * width img + x < length (raster ?out)"
      using c that by (simp add: canvas_def index_less)
    ultimately show ?thesis using c that by (simp add: getpixel_def canvas_def noise_value_def)
  qed
  from c px show ?thesis unfolding eq by (simp add: canvas_def)
qed

text \<open>
  Claim C8 at a concrete input: an image of one pixel that is not white and the
  probability 0.1 (the double). \<^verbatim>\<open>secrets.choice\<close> picks one of the
  eleven entries of the tuple, each as likely as the others, and the pixel comes out white
  for exactly one of the eleven picks, the entry 0: one time in eleven, not one in ten.
  With the probability 1 the pixel is white for ten of the eleven picks, not always.
\<close>

theorem salt_and_pepper_tenth:
  "filter (\<lambda>r. getpixel (salt_and_pepper
                   \<lparr>mode = ''RGB'', width = 1, height = 1, raster = [(10, 20, 30)]\<rparr>
                   (3602879701896397 / 36028797018963968) (\<lambda>_. r)) (0, 0) = (255, 255, 255))
      [0..<length noise_levels] = [0]
   \<and> length noise_levels = 11
   \<and> (1 :: rat) / 11 \<noteq> 3602879701896397 / 36028797018963968
   \<and> filter (\<lambda>r. getpixel (salt_and_pepper
                   \<lparr>mode = ''RGB'', width = 1, height = 1, raster = [(10, 20, 30)]\<rparr>
                   1 (\<lambda>_. r)) (0, 0) = (255, 255, 255))
      [0..<length noise_levels] = [0, 1, 2, 3, 4, 5, 6, 7, 8, 9]"
  by code_simp

section \<open>Properties of the handlers\<close>

text \<open>
  Auxiliary notions for the proofs: the image a read of an entry serves (the stored one,
  or the fresh rendering when none is stored), an entry after \<open>n\<close> reads the first of
  which ran the renderer \<open>g\<close>, and the state with one entry of the image table replaced.
\<close>

definition served :: "(string \<Rightarrow> pil_image) \<Rightarrow> cdn_record \<Rightarrow> pil_image" where
  "served g e = (case cdn_image e of None \<Rightarrow> g (cdn_solution e) | Some i \<Rightarrow> i)"

definition read_n :: "(string \<Rightarrow> pil_image) \<Rightarrow> int \<Rightarrow> cdn_record \<Rightarrow> cdn_record" where
  "read_n g n e = e\<lparr>cdn_accessed_number := cdn_accessed_number e + n, cdn_image := Some (served g e)\<rparr>"

definition put_cdn :: "string \<Rightarrow> cdn_record \<Rightarrow> app \<Rightarrow> app" where
  "put_cdn key e st = st\<lparr>captcha_cdn := (captcha_cdn st)(key \<mapsto> e)\<rparr>"

lemma put_cdn_simps [simp]:
  "captcha_cdn (put_cdn key e st) key = Some e"
  "captchas_solution (put_cdn key e st) = captchas_solution st"
  "captcha_count (put_cdn key e st) = captcha_count st"
  "put_cdn key e' (put_cdn key e st) = put_cdn key e' st"
  by (simp_all add: put_cdn_def)

lemma get_img_missing:
  "captcha_cdn st key = None \<Longrightarrow> get_img g key st = (st, cdn_not_found)"
  by (simp add: get_img_def)

lemma get_img_live:
  assumes "captcha_cdn st key = Some e" and "cdn_accessed_number e < max_cdn_access e"
  shows "get_img g key st = (put_cdn key (read_n g 1 e) st, Png (served g e))"
  using assms
  by (cases e; cases "cdn_image e")
    (simp_all add: get_img_def served_def read_n_def put_cdn_def Let_def)

lemma get_img_over:
  assumes "captcha_cdn st key = Some e" and "cdn_accessed_number e \<ge> max_cdn_access e"
    and "captchas_solution st (solution_id e) = Some s"
  shows "get_img g key st =
    (st\<lparr>captchas_solution := (captchas_solution st)(solution_id e := None),
        captcha_cdn := (captcha_cdn st)(key := None)\<rparr>, cdn_exhausted)"
  using assms by (simp add: get_img_def)

lemma get_img_solution_gone:
  assumes "captcha_cdn st key = Some e" and "cdn_accessed_number e \<ge> max_cdn_access e"
    and "captchas_solution st (solution_id e) = None"
  shows "get_img g key st = (st, cdn_not_found)"
  using assms by (simp add: get_img_def)

lemma get_img_seq_same:
  assumes "\<And>g. get_img g key st = (st, r)"
  shows "get_img_seq gs key st = (st, replicate (length gs) r)"
  by (induction gs) (simp_all add: assms)

lemma get_img_seq_append:
  "get_img_seq (gs @ hs) key st =
     (let (st1, rs) = get_img_seq gs key st; (st2, rs') = get_img_seq hs key st1
      in (st2, rs @ rs'))"
  by (induction gs arbitrary: st) (simp_all add: Let_def split: prod.splits)

lemma served_read_n [simp]: "served g' (read_n g n e) = served g e"
  by (simp add: served_def read_n_def)

lemma read_n_read_n: "read_n g' m (read_n g n e) = read_n g (n + m) e"
  by (simp add: served_def read_n_def)

lemma read_n_fields [simp]:
  "cdn_accessed_number (read_n g n e) = cdn_accessed_number e + n"
  "max_cdn_access (read_n g n e) = max_cdn_access e"
  "solution_id (read_n g n e) = solution_id e"
  "cdn_solution (read_n g n e) = cdn_solution e"
  "cdn_image (read_n g n e) = Some (served g e)"
  by (simp_all add: read_n_def)

lemma get_img_seq_live:
  assumes "captcha_cdn st key = Some e"
    and "cdn_accessed_number e + int (length (g # gs)) \<le> max_cdn_access e"
  shows "get_img_seq (g # gs) key st =
    (put_cdn key (read_n g (int (length (g # gs))) e) st,
     replicate (length (g # gs)) (Png (served g e)))"
  using assms
proof (induction gs arbitrary: g st e)
  case Nil
  then show ?case by (simp add: get_img_live)
next
  case (Cons h hs)
  let ?st1 = "put_cdn key (read_n g 1 e) st"
  have step: "get_img g key st = (?st1, Png (served g e))"
    using Cons.prems by (intro get_img_live) simp_all
  have e1: "captcha_cdn ?st1 key = Some (read_n g 1 e)" by simp
  have bound: "cdn_accessed_number (read_n g 1 e) + int (length (h # hs))
      \<le> max_cdn_access (read_n g 1 e)"
    using Cons.prems by simp
  have rest: "get_img_seq (h # hs) key ?st1 =
      (put_cdn key (read_n g (1 + int (length (h # hs))) e) st,
       replicate (length (h # hs)) (Png (served g e)))"
    by (simp only: Cons.IH [OF e1 bound] put_cdn_simps read_n_read_n served_read_n)
  show ?case
    by (subst get_img_seq.simps) (simp only: step rest Let_def prod.case, simp)
qed

lemma api_captcha_issued:
  assumes "api_captcha data rnd utcnow st = (st1, Captcha sid cid)"
  shows "1 \<le> dict_get (fst data) 5 \<and> dict_get (fst data) 5 \<le> 19
    \<and> 1 \<le> dict_get (snd data) 5 \<and> dict_get (snd data) 5 \<le> 19
    \<and> (\<exists>sol t.
          captcha_cdn st1 cid =
            Some \<lparr>cdn_solution = sol, cdn_image = None, cdn_time = t, cdn_accessed_number = 0,
                  max_cdn_access = dict_get (fst data) 5, solution_id = sid\<rparr>
        \<and> captchas_solution st1 sid =
            Some \<lparr>solution = sol, max_solution_check = dict_get (snd data) 5,
                  solution_checked = 0\<rparr>)"
proof -
  let ?a = "dict_get (fst data) 5" and ?b = "dict_get (snd data) 5"
  have a: "\<not> (?a \<ge> 20 \<or> ?a \<le> 0)"
    using assms by (auto simp: api_captcha_def Let_def bad_cdn_access_def)
  have b: "\<not> (?b \<ge> 20 \<or> ?b \<le> 0)"
    using assms a
    by (auto simp: api_captcha_def Let_def bad_solution_check_def split: if_splits)
  from assms a b show ?thesis
    by (auto simp: api_captcha_def Let_def)
qed



text \<open>
  The same for the solution table: what a check answers once it is counted, an entry
  after \<open>n\<close> more checks, and the state with one entry replaced.
\<close>

definition verdict :: "(string \<Rightarrow> string) \<Rightarrow> string option \<Rightarrow> string \<Rightarrow> response" where
  "verdict lower attempt sol =
     (case attempt of
        None \<Rightarrow> attempt_not_found
      | Some a \<Rightarrow> if a = [] then attempt_not_found
                 else Check_result (a = sol) (lower a = lower sol))"

definition checked_n :: "int \<Rightarrow> solution_record \<Rightarrow> solution_record" where
  "checked_n n e = e\<lparr>solution_checked := solution_checked e + n\<rparr>"

definition put_solution :: "string \<Rightarrow> solution_record \<Rightarrow> app \<Rightarrow> app" where
  "put_solution sid e st = st\<lparr>captchas_solution := (captchas_solution st)(sid \<mapsto> e)\<rparr>"

lemma put_solution_simps [simp]:
  "captchas_solution (put_solution sid e st) sid = Some e"
  "captcha_cdn (put_solution sid e st) = captcha_cdn st"
  "captcha_count (put_solution sid e st) = captcha_count st"
  "put_solution sid e' (put_solution sid e st) = put_solution sid e' st"
  by (simp_all add: put_solution_def)

lemma checked_n_fields [simp]:
  "solution_checked (checked_n n e) = solution_checked e + n"
  "max_solution_check (checked_n n e) = max_solution_check e"
  "solution (checked_n n e) = solution e"
  "checked_n m (checked_n n e) = checked_n (n + m) e"
  by (simp_all add: checked_n_def)

lemma check_solution_missing:
  "captchas_solution st sid = None \<Longrightarrow>
   check_solution lower sid attempt st = (st, solution_not_found)"
  by (simp add: check_solution_def)

lemma check_solution_over:
  assumes "captchas_solution st sid = Some e"
    and "solution_checked e \<ge> max_solution_check e"
  shows "check_solution lower sid attempt st =
    (st\<lparr>captchas_solution := (captchas_solution st)(sid := None)\<rparr>, solution_exhausted)"
  using assms by (simp add: check_solution_def)

lemma check_solution_live:
  assumes "captchas_solution st sid = Some e"
    and "solution_checked e < max_solution_check e"
  shows "check_solution lower sid attempt st =
    (put_solution sid (checked_n 1 e) st, verdict lower attempt (solution e))"
  using assms
  by (simp add: check_solution_def verdict_def checked_n_def put_solution_def Let_def
      split: option.splits)

lemma check_solution_seq_append:
  "check_solution_seq lower sid (as @ bs) st =
     (let (st1, rs) = check_solution_seq lower sid as st;
          (st2, rs') = check_solution_seq lower sid bs st1
      in (st2, rs @ rs'))"
  by (induction as arbitrary: st) (simp_all add: Let_def split: prod.splits)

lemma check_solution_seq_live:
  assumes "captchas_solution st sid = Some e"
    and "solution_checked e + int (length (a # as)) \<le> max_solution_check e"
  shows "check_solution_seq lower sid (a # as) st =
    (put_solution sid (checked_n (int (length (a # as))) e) st,
     map (\<lambda>x. verdict lower x (solution e)) (a # as))"
  using assms
proof (induction as arbitrary: a st e)
  case Nil
  then show ?case by (simp add: check_solution_live)
next
  case (Cons b bs)
  let ?st1 = "put_solution sid (checked_n 1 e) st"
  have step: "check_solution lower sid a st = (?st1, verdict lower a (solution e))"
    using Cons.prems by (intro check_solution_live) simp_all
  have e1: "captchas_solution ?st1 sid = Some (checked_n 1 e)" by simp
  have bound: "solution_checked (checked_n 1 e) + int (length (b # bs))
      \<le> max_solution_check (checked_n 1 e)"
    using Cons.prems by simp
  have rest: "check_solution_seq lower sid (b # bs) ?st1 =
      (put_solution sid (checked_n (1 + int (length (b # bs))) e) st,
       map (\<lambda>x. verdict lower x (solution e)) (b # bs))"
    by (simp only: Cons.IH [OF e1 bound] put_solution_simps checked_n_fields)
  show ?case
    by (subst check_solution_seq.simps) (simp only: step rest Let_def prod.case, simp)
qed

lemma get_img_seq_exhaust:
  assumes e: "captcha_cdn st key = Some e"
    and zero: "cdn_accessed_number e = 0" and none: "cdn_image e = None"
    and len: "int (length gs) = max_cdn_access e" and pos: "1 \<le> max_cdn_access e"
    and s: "captchas_solution st (solution_id e) = Some s"
  shows "get_img_seq (gs @ g # hs) key st =
    (st\<lparr>captchas_solution := (captchas_solution st)(solution_id e := None),
        captcha_cdn := (captcha_cdn st)(key := None)\<rparr>,
     replicate (length gs) (Png (hd gs (cdn_solution e))) @ cdn_exhausted
       # replicate (length hs) cdn_not_found)"
proof -
  from len pos obtain f fs where gs: "gs = f # fs" by (cases gs) auto
  let ?e1 = "read_n f (int (length gs)) e"
  let ?st1 = "put_cdn key ?e1 st"
  let ?st2 = "?st1\<lparr>captchas_solution := (captchas_solution ?st1)(solution_id ?e1 := None),
        captcha_cdn := (captcha_cdn ?st1)(key := None)\<rparr>"
  have img: "served f e = f (cdn_solution e)" using none by (simp add: served_def)
  have live: "get_img_seq gs key st = (?st1, replicate (length gs) (Png (f (cdn_solution e))))"
    unfolding gs img [symmetric]
    by (rule get_img_seq_live [OF e]) (use len zero gs in simp)
  have over: "get_img g key ?st1 = (?st2, cdn_exhausted)"
    by (rule get_img_over [where s = s]) (use len zero s in simp_all)
  have gone: "get_img_seq hs key ?st2 = (?st2, replicate (length hs) cdn_not_found)"
    by (rule get_img_seq_same) (simp add: get_img_missing)
  have st2: "?st2 = st\<lparr>captchas_solution := (captchas_solution st)(solution_id e := None),
        captcha_cdn := (captcha_cdn st)(key := None)\<rparr>"
    by (simp add: put_cdn_def)
  have "get_img_seq (gs @ g # hs) key st =
      (?st2, replicate (length gs) (Png (f (cdn_solution e))) @ cdn_exhausted
         # replicate (length hs) cdn_not_found)"
    by (simp only: get_img_seq_append live get_img_seq.simps over gone Let_def prod.case)
  then show ?thesis by (simp only: st2) (simp add: gs)
qed

lemma check_solution_seq_exhaust:
  assumes e: "captchas_solution st sid = Some e"
    and zero: "solution_checked e = 0"
    and len: "int (length as) = max_solution_check e" and pos: "1 \<le> max_solution_check e"
  shows "check_solution_seq lower sid (as @ [a]) st =
    (st\<lparr>captchas_solution := (captchas_solution st)(sid := None)\<rparr>,
     map (\<lambda>x. verdict lower x (solution e)) as @ [solution_exhausted])"
proof -
  from len pos obtain b bs where as: "as = b # bs" by (cases as) auto
  let ?e1 = "checked_n (int (length as)) e"
  let ?st1 = "put_solution sid ?e1 st"
  let ?st2 = "?st1\<lparr>captchas_solution := (captchas_solution ?st1)(sid := None)\<rparr>"
  have live: "check_solution_seq lower sid as st =
      (?st1, map (\<lambda>x. verdict lower x (solution e)) as)"
    unfolding as by (rule check_solution_seq_live [OF e]) (use len zero as in simp)
  have over: "check_solution lower sid a ?st1 = (?st2, solution_exhausted)"
    by (rule check_solution_over [where e = ?e1]) (use len zero in simp_all)
  have st2: "?st2 = st\<lparr>captchas_solution := (captchas_solution st)(sid := None)\<rparr>"
    by (simp add: put_solution_def)
  have "check_solution_seq lower sid (as @ [a]) st =
      (?st2, map (\<lambda>x. verdict lower x (solution e)) as @ [solution_exhausted])"
    by (simp only: check_solution_seq_append live check_solution_seq.simps over Let_def
        prod.case)
  then show ?thesis by (simp only: st2)
qed

lemma verdict_nonempty:
  "a \<noteq> [] \<Longrightarrow> verdict lower (Some a) sol = Check_result (a = sol) (lower a = lower sol)"
  by (simp add: verdict_def)

text \<open>
  Once the paired entry of the solution table is gone, no read of the image is answered
  418 and the entry of the image table is never deleted, however many reads follow.
\<close>

lemma not_exhausted:
  "Png pil \<noteq> cdn_exhausted" "cdn_not_found \<noteq> cdn_exhausted"
  "cdn_exhausted \<noteq> Png pil" "cdn_exhausted \<noteq> cdn_not_found"
  by (simp_all add: cdn_exhausted_def cdn_not_found_def)

lemma get_img_seq_solution_gone:
  assumes "captcha_cdn st key = Some e"
    and "captchas_solution st (solution_id e) = None"
  shows "cdn_exhausted \<notin> set (snd (get_img_seq gs key st))
    \<and> captcha_cdn (fst (get_img_seq gs key st)) key \<noteq> None"
  using assms
proof (induction gs arbitrary: st e)
  case Nil
  then show ?case by simp
next
  case (Cons g gs)
  show ?case
  proof (cases "cdn_accessed_number e \<ge> max_cdn_access e")
    case True
    have step: "get_img g key st = (st, cdn_not_found)"
      using Cons.prems(1) True Cons.prems(2) by (rule get_img_solution_gone)
    from Cons.IH [OF Cons.prems] show ?thesis
      by (auto simp: step not_exhausted split: prod.splits)
  next
    case False
    let ?st1 = "put_cdn key (read_n g 1 e) st"
    have step: "get_img g key st = (?st1, Png (served g e))"
      using Cons.prems(1) False by (intro get_img_live) simp_all
    have e1: "captcha_cdn ?st1 key = Some (read_n g 1 e)" by simp
    have s1: "captchas_solution ?st1 (solution_id (read_n g 1 e)) = None"
      using Cons.prems(2) by simp
    from Cons.IH [OF e1 s1] show ?thesis
      by (auto simp: step not_exhausted split: prod.splits)
  qed
qed

section \<open>The claims about the handlers\<close>

text \<open>
  A concrete run for the witnesses: an application with empty tables and the counter at
  0, a renderer that returns a blank image as wide as the text is long, and the state
  after one request for a captcha with the draws \<open>0, 7, 14, ...\<close> and the clock at
  100, 101, 102 seconds. With these draws the solution is \<open>DMTa\<close>.
\<close>

definition fresh_app :: app where
  "fresh_app = \<lparr>captcha_cdn = Map.empty, captchas_solution = Map.empty, captcha_count = 0\<rparr>"

definition blank_cap_gen :: "string \<Rightarrow> pil_image" where
  "blank_cap_gen text = Image_new ''RGB'' (length text, 1)"

definition issued_app :: "int option \<times> int option \<Rightarrow> app" where
  "issued_app data = fst (api_captcha data (\<lambda>i. i * 7) (\<lambda>i. 100 + i) fresh_app)"

text \<open>
  The state reached from a captcha with both limits at 1 by two checks (the second one
  deletes the entry of the solution table) and then one read of the image.
\<close>

definition orphaned_app :: app where
  "orphaned_app =
     fst (get_img_seq [blank_cap_gen] ''MC5ocHdETVRhaHB3LjQy''
       (fst (check_solution_seq ascii_lower ''MC5haHB3RE1UYWhwLjQw'' [Some ''DMTa'', Some ''DMTa'']
          (issued_app (Some 1, Some 1)))))"

text \<open>The state after the two checks alone, before any read of the image.\<close>

definition checks_spent_app :: app where
  "checks_spent_app =
     fst (check_solution_seq ascii_lower ''MC5haHB3RE1UYWhwLjQw'' [Some ''DMTa'', Some ''DMTa'']
       (issued_app (Some 1, Some 1)))"

text \<open>
  The reads of a new captcha when nothing else is called in between: the request for the
  captcha succeeds (so its limit \<open>maxCdnAccess\<close>, 5 when absent, is between 1 and 19)
  and a client then reads its image \<open>gs @ g # hs\<close> times in a row, where \<open>gs\<close> has as
  many calls as the limit allows. Each call of \<open>gs\<close> gets the image (200), the call
  \<open>g\<close> after them gets the 418 answer and leaves no entry under the identifier in the
  image table, and every call of \<open>hs\<close> after that gets the 400 answer "cdn key not
  found". The paired entry of the solution table is in place here when the limit is
  passed.
\<close>

lemma reads_after_issue:
  assumes issue: "api_captcha data rnd utcnow st = (st1, Captcha sid cid)"
    and len: "int (length gs) = dict_get (fst data) 5"
  shows "1 \<le> length gs \<and> length gs \<le> 19
    \<and> (\<exists>pil. snd (get_img_seq (gs @ g # hs) cid st1) =
          replicate (length gs) (Png pil) @ cdn_exhausted # replicate (length hs) cdn_not_found)
    \<and> captcha_cdn (fst (get_img_seq (gs @ [g]) cid st1)) cid = None"
proof -
  from api_captcha_issued [OF issue] obtain sol t where
    range: "1 \<le> dict_get (fst data) 5" "dict_get (fst data) 5 \<le> 19"
    and e: "captcha_cdn st1 cid =
      Some \<lparr>cdn_solution = sol, cdn_image = None, cdn_time = t, cdn_accessed_number = 0,
            max_cdn_access = dict_get (fst data) 5, solution_id = sid\<rparr>"
    and s: "captchas_solution st1 sid =
      Some \<lparr>solution = sol, max_solution_check = dict_get (snd data) 5, solution_checked = 0\<rparr>"
    by blast
  let ?e = "\<lparr>cdn_solution = sol, cdn_image = None, cdn_time = t, cdn_accessed_number = 0,
            max_cdn_access = dict_get (fst data) 5, solution_id = sid\<rparr>"
  have run: "get_img_seq (gs @ g # hs') cid st1 =
    (st1\<lparr>captchas_solution := (captchas_solution st1)(solution_id ?e := None),
        captcha_cdn := (captcha_cdn st1)(cid := None)\<rparr>,
     replicate (length gs) (Png (hd gs (cdn_solution ?e))) @ cdn_exhausted
       # replicate (length hs') cdn_not_found)" for hs'
    by (rule get_img_seq_exhaust [OF e]) (use len range s in simp_all)
  have "1 \<le> length gs \<and> length gs \<le> 19" using len range by linarith
  moreover have "\<exists>pil. snd (get_img_seq (gs @ g # hs) cid st1) =
      replicate (length gs) (Png pil) @ cdn_exhausted # replicate (length hs) cdn_not_found"
    by (simp only: run snd_conv) blast
  moreover have "captcha_cdn (fst (get_img_seq (gs @ [g]) cid st1)) cid = None"
    by (simp only: run fst_conv) simp
  ultimately show ?thesis by blast
qed

lemma reads_after_issue_example:
  "api_captcha (Some 2, None) (\<lambda>i. i * 7) (\<lambda>i. 100 + i) fresh_app =
     (issued_app (Some 2, None), Captcha ''MC5haHB3RE1UYWhwLjQw'' ''MC5ocHdETVRhaHB3LjQy'')
   \<and> snd (get_img_seq ([blank_cap_gen, blank_cap_gen] @ blank_cap_gen # [blank_cap_gen])
          ''MC5ocHdETVRhaHB3LjQy'' (issued_app (Some 2, None))) =
       [Png (blank_cap_gen ''DMTa''), Png (blank_cap_gen ''DMTa''), cdn_exhausted, cdn_not_found]
   \<and> captcha_cdn (fst (get_img_seq ([blank_cap_gen, blank_cap_gen] @ [blank_cap_gen])
          ''MC5ocHdETVRhaHB3LjQy'' (issued_app (Some 2, None)))) ''MC5ocHdETVRhaHB3LjQy'' = None"
proof -
  have r: "snd (api_captcha (Some 2, None) (\<lambda>i. i * 7) (\<lambda>i. 100 + i) fresh_app) =
      Captcha ''MC5haHB3RE1UYWhwLjQw'' ''MC5ocHdETVRhaHB3LjQy''"
    by code_simp
  then have issue: "api_captcha (Some 2, None) (\<lambda>i. i * 7) (\<lambda>i. 100 + i) fresh_app =
      (issued_app (Some 2, None), Captcha ''MC5haHB3RE1UYWhwLjQw'' ''MC5ocHdETVRhaHB3LjQy'')"
    by (simp add: issued_app_def prod_eq_iff)
  have len: "int (length [blank_cap_gen, blank_cap_gen]) = dict_get (fst (Some 2, None)) 5"
    by (simp add: dict_get_def)
  have v: "snd (get_img_seq ([blank_cap_gen, blank_cap_gen] @ blank_cap_gen # [blank_cap_gen])
          ''MC5ocHdETVRhaHB3LjQy'' (issued_app (Some 2, None))) =
       [Png (blank_cap_gen ''DMTa''), Png (blank_cap_gen ''DMTa''), cdn_exhausted, cdn_not_found]"
    by code_simp
  from reads_after_issue [OF issue len, of blank_cap_gen "[blank_cap_gen]"] issue v
  show ?thesis by blast
qed

text \<open>
  The same reads after the checks have used up the solution side: a captcha is issued,
  one check more than \<open>maxSolutionCheck\<close> allows is made (the last one deletes the
  entry of the solution table), and then the image is read any number of times. No read
  gets the 418 answer, and the entry stays in the image table.
\<close>

lemma reads_after_checks:
  assumes issue: "api_captcha data rnd utcnow st = (st1, Captcha sid cid)"
    and n: "int (length as) = dict_get (snd data) 5"
  shows "cdn_exhausted \<notin> set (snd (get_img_seq gs cid
            (fst (check_solution_seq lower sid (as @ [a]) st1))))
    \<and> captcha_cdn (fst (get_img_seq gs cid
            (fst (check_solution_seq lower sid (as @ [a]) st1)))) cid \<noteq> None"
proof -
  from api_captcha_issued [OF issue] obtain sol t where
    range: "1 \<le> dict_get (snd data) 5"
    and e: "captcha_cdn st1 cid =
      Some \<lparr>cdn_solution = sol, cdn_image = None, cdn_time = t, cdn_accessed_number = 0,
            max_cdn_access = dict_get (fst data) 5, solution_id = sid\<rparr>"
    and s: "captchas_solution st1 sid =
      Some \<lparr>solution = sol, max_solution_check = dict_get (snd data) 5, solution_checked = 0\<rparr>"
    by blast
  let ?e = "\<lparr>cdn_solution = sol, cdn_image = None, cdn_time = t, cdn_accessed_number = 0,
            max_cdn_access = dict_get (fst data) 5, solution_id = sid\<rparr>"
  let ?s = "\<lparr>solution = sol, max_solution_check = dict_get (snd data) 5, solution_checked = 0\<rparr>"
  let ?st2 = "st1\<lparr>captchas_solution := (captchas_solution st1)(sid := None)\<rparr>"
  have checks: "check_solution_seq lower sid (as @ [a]) st1 =
      (?st2, map (\<lambda>x. verdict lower x (solution ?s)) as @ [solution_exhausted])"
    by (rule check_solution_seq_exhaust [OF s]) (use n range in simp_all)
  have e2: "captcha_cdn ?st2 cid = Some ?e" using e by simp
  have s2: "captchas_solution ?st2 (solution_id ?e) = None" by simp
  have "fst (check_solution_seq lower sid (as @ [a]) st1) = ?st2"
    by (simp only: checks fst_conv)
  with get_img_seq_solution_gone [OF e2 s2, of gs] show ?thesis
    by metis
qed

text \<open>
  Claim C1 at a failing input: a captcha with both limits at 1, two checks (the second
  gets 418 and deletes the entry of the solution table), then three reads of the image.
  The first read gets the image, as the limit allows. The second read is the one past
  the limit: the claim gives it the 418 answer and the deletion of the entry, and the
  code gives it the 400 answer "cdn key not found", because deleting the paired entry
  of the solution table raises \<^verbatim>\<open>KeyError\<close> before the entry of the image table is
  deleted. The entry is still in the image table after the three reads, its counter at
  its limit, and the third read gets the same 400 answer.
\<close>

theorem retrieve_after_checks_not_exhausted:
  "snd (api_captcha (Some 1, Some 1) (\<lambda>i. i * 7) (\<lambda>i. 100 + i) fresh_app) =
     Captcha ''MC5haHB3RE1UYWhwLjQw'' ''MC5ocHdETVRhaHB3LjQy''
   \<and> snd (check_solution_seq ascii_lower ''MC5haHB3RE1UYWhwLjQw'' [Some ''DMTa'', Some ''DMTa'']
          (issued_app (Some 1, Some 1))) = [Check_result True True, solution_exhausted]
   \<and> snd (get_img_seq [blank_cap_gen, blank_cap_gen, blank_cap_gen] ''MC5ocHdETVRhaHB3LjQy''
          checks_spent_app) = [Png (blank_cap_gen ''DMTa''), cdn_not_found, cdn_not_found]
   \<and> cdn_not_found \<noteq> cdn_exhausted
   \<and> captcha_cdn (fst (get_img_seq [blank_cap_gen, blank_cap_gen, blank_cap_gen]
          ''MC5ocHdETVRhaHB3LjQy'' checks_spent_app)) ''MC5ocHdETVRhaHB3LjQy'' =
       Some \<lparr>cdn_solution = ''DMTa'', cdn_image = Some (blank_cap_gen ''DMTa''), cdn_time = 401,
             cdn_accessed_number = 1, max_cdn_access = 1,
             solution_id = ''MC5haHB3RE1UYWhwLjQw''\<rparr>"
  by code_simp





text \<open>
  Claim C4: for an entry of the solution table that has checks left and a non-empty
  attempt, the answer of \<open>check_solution\<close> is the pair of booleans "the attempt is the
  solution" and "the attempt and the solution are equal after \<open>lower\<close>", and nothing
  else: the solution is not in it. So the solution itself gets (true, true), an attempt
  that differs from it only in letter case gets (false, true), and an attempt that
  differs from it after lower-casing gets (false, false).
\<close>

theorem check_solution_verdict:
  assumes "captchas_solution st sid = Some e"
    and "solution_checked e < max_solution_check e"
    and "attempt \<noteq> []"
  shows "snd (check_solution lower sid (Some attempt) st) =
      Check_result (attempt = solution e) (lower attempt = lower (solution e))
    \<and> (attempt = solution e \<longrightarrow>
         snd (check_solution lower sid (Some attempt) st) = Check_result True True)
    \<and> (attempt \<noteq> solution e \<and> lower attempt = lower (solution e) \<longrightarrow>
         snd (check_solution lower sid (Some attempt) st) = Check_result False True)
    \<and> (lower attempt \<noteq> lower (solution e) \<longrightarrow>
         snd (check_solution lower sid (Some attempt) st) = Check_result False False)"
proof -
  have "snd (check_solution lower sid (Some attempt) st) =
      Check_result (attempt = solution e) (lower attempt = lower (solution e))"
    using assms by (simp add: check_solution_live verdict_nonempty)
  then show ?thesis by auto
qed

theorem check_solution_verdict_witness:
  "captchas_solution (issued_app (None, None)) ''MC5haHB3RE1UYWhwLjQw'' =
     Some \<lparr>solution = ''DMTa'', max_solution_check = 5, solution_checked = 0\<rparr>
   \<and> snd (check_solution ascii_lower ''MC5haHB3RE1UYWhwLjQw'' (Some ''DMTa'')
          (issued_app (None, None))) = Check_result True True
   \<and> snd (check_solution ascii_lower ''MC5haHB3RE1UYWhwLjQw'' (Some ''dmtA'')
          (issued_app (None, None))) = Check_result False True
   \<and> snd (check_solution ascii_lower ''MC5haHB3RE1UYWhwLjQw'' (Some ''DMTb'')
          (issued_app (None, None))) = Check_result False False"
proof -
  let ?e = "\<lparr>solution = ''DMTa'', max_solution_check = 5, solution_checked = 0\<rparr>"
  have e: "captchas_solution (issued_app (None, None)) ''MC5haHB3RE1UYWhwLjQw'' = Some ?e"
    by code_simp
  have left: "solution_checked ?e < max_solution_check ?e" by simp
  have low: "ascii_lower ''dmtA'' = ascii_lower ''DMTa''"
    "ascii_lower ''DMTb'' \<noteq> ascii_lower ''DMTa''"
    by code_simp+
  have "snd (check_solution ascii_lower ''MC5haHB3RE1UYWhwLjQw'' (Some ''DMTa'')
          (issued_app (None, None))) = Check_result True True"
    using check_solution_verdict [OF e left, of "''DMTa''" ascii_lower] by simp
  moreover have "snd (check_solution ascii_lower ''MC5haHB3RE1UYWhwLjQw'' (Some ''dmtA'')
          (issued_app (None, None))) = Check_result False True"
    using check_solution_verdict [OF e left, of "''dmtA''" ascii_lower] low by simp
  moreover have "snd (check_solution ascii_lower ''MC5haHB3RE1UYWhwLjQw'' (Some ''DMTb'')
          (issued_app (None, None))) = Check_result False False"
    using check_solution_verdict [OF e left, of "''DMTb''" ascii_lower] low by simp
  ultimately show ?thesis using e by blast
qed

text \<open>
  Claim C5: when the entry of the image table has used up its reads and its paired entry
  of the solution table is gone, \<open>get_img\<close> answers 400 "cdn key not found", which is
  not the 418 answer, and changes nothing: the entry stays in the image table, and any
  number of further reads get the same 400 answer and leave the state as it is.
\<close>

theorem get_img_orphaned:
  assumes "captcha_cdn st key = Some e"
    and "cdn_accessed_number e \<ge> max_cdn_access e"
    and "captchas_solution st (solution_id e) = None"
  shows "get_img g key st = (st, cdn_not_found)
    \<and> cdn_not_found \<noteq> cdn_exhausted
    \<and> captcha_cdn (fst (get_img g key st)) key = Some e
    \<and> get_img_seq gs key st = (st, replicate (length gs) cdn_not_found)"
proof -
  have one: "get_img g' key st = (st, cdn_not_found)" for g'
    using assms by (rule get_img_solution_gone)
  have "get_img_seq gs key st = (st, replicate (length gs) cdn_not_found)"
    by (rule get_img_seq_same) (rule one)
  moreover have "cdn_not_found \<noteq> cdn_exhausted"
    by (simp add: cdn_not_found_def cdn_exhausted_def)
  ultimately show ?thesis using one assms(1) by simp
qed

theorem get_img_orphaned_witness:
  "captcha_cdn orphaned_app ''MC5ocHdETVRhaHB3LjQy'' =
     Some \<lparr>cdn_solution = ''DMTa'', cdn_image = Some (blank_cap_gen ''DMTa''), cdn_time = 401,
           cdn_accessed_number = 1, max_cdn_access = 1, solution_id = ''MC5haHB3RE1UYWhwLjQw''\<rparr>
   \<and> captchas_solution orphaned_app ''MC5haHB3RE1UYWhwLjQw'' = None
   \<and> get_img blank_cap_gen ''MC5ocHdETVRhaHB3LjQy'' orphaned_app = (orphaned_app, cdn_not_found)
   \<and> get_img_seq [blank_cap_gen, blank_cap_gen] ''MC5ocHdETVRhaHB3LjQy'' orphaned_app =
       (orphaned_app, [cdn_not_found, cdn_not_found])"
proof -
  let ?e = "\<lparr>cdn_solution = ''DMTa'', cdn_image = Some (blank_cap_gen ''DMTa''), cdn_time = 401,
           cdn_accessed_number = 1, max_cdn_access = 1, solution_id = ''MC5haHB3RE1UYWhwLjQw''\<rparr>"
  have e: "captcha_cdn orphaned_app ''MC5ocHdETVRhaHB3LjQy'' = Some ?e" by code_simp
  have over: "cdn_accessed_number ?e \<ge> max_cdn_access ?e" by simp
  have gone: "captchas_solution orphaned_app ''MC5haHB3RE1UYWhwLjQw'' = None" by code_simp
  then have gone': "captchas_solution orphaned_app (solution_id ?e) = None" by simp
  from get_img_orphaned [OF e over gone', of blank_cap_gen "[blank_cap_gen, blank_cap_gen]"] e gone
  show ?thesis by simp
qed

text \<open>
  Claim C9: the entry of a new captcha has no image. When a client then reads the image
  \<open>g # gs\<close> times within the limit, every call answers the image the first call
  rendered (\<open>g\<close> applied to the solution), whatever the renderers of the later calls
  would have produced, and that image is the one stored in the entry afterwards. In any
  state, a read within the limit of an entry that holds an image answers that image and
  keeps it.
\<close>

theorem get_img_memoized:
  assumes issue: "api_captcha data rnd utcnow st = (st1, Captcha sid cid)"
    and len: "int (length (g # gs)) \<le> dict_get (fst data) 5"
  shows "(\<exists>sol.
        (\<exists>e. captcha_cdn st1 cid = Some e \<and> cdn_image e = None \<and> cdn_solution e = sol)
      \<and> snd (get_img_seq (g # gs) cid st1) = replicate (length (g # gs)) (Png (g sol))
      \<and> (\<exists>e. captcha_cdn (fst (get_img_seq (g # gs) cid st1)) cid = Some e
             \<and> cdn_image e = Some (g sol)))
    \<and> (captcha_cdn st' key = Some e' \<and> cdn_image e' = Some pil
         \<and> cdn_accessed_number e' < max_cdn_access e'
       \<longrightarrow> snd (get_img g' key st') = Png pil
         \<and> (\<exists>e. captcha_cdn (fst (get_img g' key st')) key = Some e \<and> cdn_image e = Some pil))"
proof -
  from api_captcha_issued [OF issue] obtain sol t where
    e: "captcha_cdn st1 cid =
      Some \<lparr>cdn_solution = sol, cdn_image = None, cdn_time = t, cdn_accessed_number = 0,
            max_cdn_access = dict_get (fst data) 5, solution_id = sid\<rparr>"
    by blast
  let ?e = "\<lparr>cdn_solution = sol, cdn_image = None, cdn_time = t, cdn_accessed_number = 0,
            max_cdn_access = dict_get (fst data) 5, solution_id = sid\<rparr>"
  have first: "served g ?e = g sol" by (simp add: served_def)
  have run: "get_img_seq (g # gs) cid st1 =
      (put_cdn cid (read_n g (int (length (g # gs))) ?e) st1,
       replicate (length (g # gs)) (Png (served g ?e)))"
    by (rule get_img_seq_live [OF e]) (use len in simp)
  have "\<exists>e. captcha_cdn st1 cid = Some e \<and> cdn_image e = None \<and> cdn_solution e = sol"
    using e by simp
  moreover have "snd (get_img_seq (g # gs) cid st1) = replicate (length (g # gs)) (Png (g sol))"
    by (simp only: run snd_conv first)
  moreover have "\<exists>e. captcha_cdn (fst (get_img_seq (g # gs) cid st1)) cid = Some e
      \<and> cdn_image e = Some (g sol)"
    by (simp only: run fst_conv) (simp add: first)
  moreover have "snd (get_img g' key st') = Png pil
      \<and> (\<exists>e. captcha_cdn (fst (get_img g' key st')) key = Some e \<and> cdn_image e = Some pil)"
    if "captcha_cdn st' key = Some e'" "cdn_image e' = Some pil"
      "cdn_accessed_number e' < max_cdn_access e'"
    using that by (simp add: get_img_live served_def)
  ultimately show ?thesis by blast
qed

theorem get_img_memoized_witness:
  "api_captcha (Some 3, None) (\<lambda>i. i * 7) (\<lambda>i. 100 + i) fresh_app =
     (issued_app (Some 3, None), Captcha ''MC5haHB3RE1UYWhwLjQw'' ''MC5ocHdETVRhaHB3LjQy'')
   \<and> (\<exists>e. captcha_cdn (issued_app (Some 3, None)) ''MC5ocHdETVRhaHB3LjQy'' = Some e
          \<and> cdn_image e = None \<and> cdn_solution e = ''DMTa'')
   \<and> snd (get_img_seq (blank_cap_gen # [\<lambda>text. Image_new ''L'' (2, 2), \<lambda>text. Image_new ''L'' (3, 3)])
          ''MC5ocHdETVRhaHB3LjQy'' (issued_app (Some 3, None))) =
       [Png (blank_cap_gen ''DMTa''), Png (blank_cap_gen ''DMTa''), Png (blank_cap_gen ''DMTa'')]
   \<and> snd (get_img (\<lambda>text. Image_new ''L'' (2, 2)) ''MC5ocHdETVRhaHB3LjQy''
          (fst (get_img blank_cap_gen ''MC5ocHdETVRhaHB3LjQy'' (issued_app (Some 3, None))))) =
       Png (blank_cap_gen ''DMTa'')"
proof -
  let ?other = "[\<lambda>text. Image_new ''L'' (2, 2), \<lambda>text. Image_new ''L'' (3, 3)]"
  let ?st' = "fst (get_img blank_cap_gen ''MC5ocHdETVRhaHB3LjQy'' (issued_app (Some 3, None)))"
  let ?e' = "\<lparr>cdn_solution = ''DMTa'', cdn_image = Some (blank_cap_gen ''DMTa''), cdn_time = 401,
           cdn_accessed_number = 1, max_cdn_access = 3, solution_id = ''MC5haHB3RE1UYWhwLjQw''\<rparr>"
  have "snd (api_captcha (Some 3, None) (\<lambda>i. i * 7) (\<lambda>i. 100 + i) fresh_app) =
      Captcha ''MC5haHB3RE1UYWhwLjQw'' ''MC5ocHdETVRhaHB3LjQy''"
    by code_simp
  then have issue: "api_captcha (Some 3, None) (\<lambda>i. i * 7) (\<lambda>i. 100 + i) fresh_app =
      (issued_app (Some 3, None), Captcha ''MC5haHB3RE1UYWhwLjQw'' ''MC5ocHdETVRhaHB3LjQy'')"
    by (simp add: issued_app_def prod_eq_iff)
  have len: "int (length (blank_cap_gen # ?other)) \<le> dict_get (fst (Some 3, None)) 5"
    by (simp add: dict_get_def)
  have sol: "\<exists>e. captcha_cdn (issued_app (Some 3, None)) ''MC5ocHdETVRhaHB3LjQy'' = Some e
      \<and> cdn_image e = None \<and> cdn_solution e = ''DMTa''"
    by (rule exI [of _ "\<lparr>cdn_solution = ''DMTa'', cdn_image = None, cdn_time = 401,
           cdn_accessed_number = 0, max_cdn_access = 3, solution_id = ''MC5haHB3RE1UYWhwLjQw''\<rparr>"])
      code_simp
  have e': "captcha_cdn ?st' ''MC5ocHdETVRhaHB3LjQy'' = Some ?e'" by code_simp
  have held: "cdn_image ?e' = Some (blank_cap_gen ''DMTa'')"
    "cdn_accessed_number ?e' < max_cdn_access ?e'" by simp_all
  note inst = get_img_memoized [OF issue len, of ?st' "''MC5ocHdETVRhaHB3LjQy''" ?e'
      "blank_cap_gen ''DMTa''" "\<lambda>text. Image_new ''L'' (2, 2)"]
  from inst sol have run: "snd (get_img_seq (blank_cap_gen # ?other)
          ''MC5ocHdETVRhaHB3LjQy'' (issued_app (Some 3, None))) =
       replicate (length (blank_cap_gen # ?other)) (Png (blank_cap_gen ''DMTa''))"
    by auto
  from inst e' held have again: "snd (get_img (\<lambda>text. Image_new ''L'' (2, 2))
      ''MC5ocHdETVRhaHB3LjQy'' ?st') = Png (blank_cap_gen ''DMTa'')"
    by blast
  from issue sol run again show ?thesis by (simp add: numeral_3_eq_3)
qed

end
